theory Spec2Isabelle
  imports Main "HOL-Library.Word"
begin

unbundle bit_operations_syntax

section \<open>Data model of strutil\<close>

text \<open>
  The library keeps a C string behind a handle (\<open>struct Str\<close>). A \<open>char\<close> is a byte; a
  \<open>size_t\<close> is taken to be 64 bits wide (LP64). A heap block that holds a C string is
  modelled by the number of bytes that were requested for it (\<open>cap\<close>) and by the bytes
  before its first zero byte (\<open>str\<close>): that list is what \<open>strlen\<close>, \<open>strcpy\<close>,
  \<open>strcat\<close>, \<open>strstr\<close> and \<open>printf("%s")\<close> see. A \<open>const char *\<close> argument is
  either \<open>NULL\<close> (\<open>None\<close>) or such a list of bytes; the caller's strings are assumed
  not to overlap the handle's own block.

  Lengths and block sizes are natural numbers: a block of that many bytes lies in a
  64-bit address space, so these counts cannot wrap. The one place where the source
  computes with a \<open>size_t\<close> that is not the size of an existing block, the bound
  \<open>max_str_size - 1\<close> of \<open>get_dyn_input\<close>, is a 64-bit word and wraps.

  \<open>malloc\<close>, \<open>calloc\<close> and \<open>realloc\<close> may refuse a request. The parameter
  \<open>alloc\<close> of every operation that allocates says which requests (by size in bytes)
  are granted. The mutex of a handle is not modelled: every operation is taken as one
  atomic step.
\<close>

type_synonym byte = "8 word"
type_synonym size_t = "64 word"

record cbuf =
  cap :: nat
  str :: "byte list"

record Str =
  data :: "cbuf option"
  is_dynamic :: "8 word"

text \<open>The values of \<open>errno.h\<close> (Linux): \<open>EINVAL\<close> is 22 and \<open>ENOMEM\<close> is 12.\<close>

definition EINVAL :: int where
  "EINVAL = 22"

definition ENOMEM :: int where
  "ENOMEM = 12"

text \<open>\<open>MAX_STRING_SIZE = (SIZE_MAX / 100) * 95\<close>, in \<open>size_t\<close> arithmetic.\<close>

definition MAX_STRING_SIZE :: size_t where
  "MAX_STRING_SIZE = ((- 1) div 100) * 95"

text \<open>\<open>sizeof(struct Str)\<close> on x86-64 with glibc: a pointer, a flag and a 40-byte mutex.\<close>

definition sizeof_Str :: nat where
  "sizeof_Str = 56"

section \<open>The C library functions the code calls\<close>

text \<open>
  \<open>strstr(haystack, needle)\<close>: the offset of the first occurrence of \<open>needle\<close> in
  \<open>haystack\<close>, or \<open>NULL\<close>; an empty needle is found at offset 0.
\<close>

fun strstr :: "byte list \<Rightarrow> byte list \<Rightarrow> nat option" where
  "strstr [] n = (if n = [] then Some 0 else None)"
| "strstr (c # cs) n =
     (if take (length n) (c # cs) = n then Some 0
      else map_option Suc (strstr cs n))"

text \<open>
  \<open>strrchr(s, c)\<close>: the offset of the last occurrence of \<open>c\<close> in \<open>s\<close>, or \<open>NULL\<close>.
  The terminating zero byte counts as part of the string, so \<open>strrchr(s, 0)\<close> points
  at the terminator.
\<close>

fun last_index :: "byte list \<Rightarrow> byte \<Rightarrow> nat option" where
  "last_index [] c = None"
| "last_index (x # xs) c =
     (case last_index xs c of
        Some i \<Rightarrow> Some (Suc i)
      | None \<Rightarrow> if x = c then Some 0 else None)"

definition strrchr :: "byte list \<Rightarrow> byte \<Rightarrow> nat option" where
  "strrchr s c = last_index (s @ [0]) c"

section \<open>GrowableString: the operations on a handle\<close>

text \<open>
  A handle pointer is \<open>None\<close> for \<open>NULL\<close>. An operation returns its \<open>int\<close> status and
  the handle as the call leaves it.
\<close>

definition str_init :: "(nat \<Rightarrow> bool) \<Rightarrow> Str option" where
  "str_init alloc =
     (if alloc sizeof_Str then Some \<lparr>data = None, is_dynamic = 1\<rparr> else None)"

definition str_add :: "(nat \<Rightarrow> bool) \<Rightarrow> Str option \<Rightarrow> byte list option \<Rightarrow> int \<times> Str option" where
  "str_add alloc self new_data =
     (case self of
        None \<Rightarrow> (- EINVAL, self)
      | Some s \<Rightarrow>
          (case new_data of
             None \<Rightarrow> (- EINVAL, self)
           | Some d \<Rightarrow>
               (case data s of
                  Some b \<Rightarrow>
                    (let size = length d + length (str b) in
                     if alloc (size + 1)
                     then (0, Some (s\<lparr>data := Some \<lparr>cap = size + 1, str = str b @ d\<rparr>\<rparr>))
                     else (- ENOMEM, self))
                | None \<Rightarrow>
                    (let size = length d in
                     if \<not> alloc (size + 1) then (- 1, Some (s\<lparr>data := None\<rparr>))
                     else
                       (let b = \<lparr>cap = size + 1, str = d\<rparr> in
                        if length (str b) \<noteq> length d then (- 1, Some (s\<lparr>data := Some b\<rparr>))
                        else (0, Some (s\<lparr>data := Some b\<rparr>)))))))"

text \<open>
  \<open>get_dyn_input\<close> reads \<open>stdin\<close> with \<open>getchar\<close>. The stream is the list of bytes
  still to come, its end is \<open>EOF\<close>; the function returns what is left of it. The
  staging buffer starts with \<open>CHUNK_SIZE\<close> bytes and grows by \<open>CHUNK_SIZE\<close>;
  \<open>buf\<close> holds the bytes stored so far, so \<open>length buf\<close> is the variable \<open>length\<close>.
\<close>

definition CHUNK_SIZE :: nat where
  "CHUNK_SIZE = 10"

fun read_chars ::
  "(nat \<Rightarrow> bool) \<Rightarrow> size_t \<Rightarrow> nat \<Rightarrow> byte list \<Rightarrow> byte list \<Rightarrow> byte list option \<times> byte list" where
  "read_chars alloc max_str_size current_size buf [] = (Some buf, [])"
| "read_chars alloc max_str_size current_size buf (c # rest) =
     (if c = 10 then (Some buf, rest)
      else if length buf + 1 \<ge> current_size
      then
        (if \<not> alloc (current_size + CHUNK_SIZE) then (None, rest)
         else if current_size + CHUNK_SIZE \<ge> unat (max_str_size - 1) then (None, rest)
         else read_chars alloc max_str_size (current_size + CHUNK_SIZE) (buf @ [c]) rest)
      else if current_size \<ge> unat (max_str_size - 1) then (None, rest)
      else read_chars alloc max_str_size current_size (buf @ [c]) rest)"

definition get_dyn_input ::
  "(nat \<Rightarrow> bool) \<Rightarrow> size_t \<Rightarrow> byte list \<Rightarrow> cbuf option \<times> byte list" where
  "get_dyn_input alloc max_str_size inp =
     (if \<not> alloc CHUNK_SIZE then (None, inp)
      else
        (case read_chars alloc max_str_size CHUNK_SIZE [] inp of
           (None, rest) \<Rightarrow> (None, rest)
         | (Some buf, rest) \<Rightarrow>
             if \<not> alloc (length buf + 1) then (None, rest)
             else (Some \<lparr>cap = length buf + 1, str = takeWhile (\<lambda>b. b \<noteq> 0) buf\<rparr>, rest)))"

definition str_input ::
  "(nat \<Rightarrow> bool) \<Rightarrow> Str option \<Rightarrow> byte list \<Rightarrow> int \<times> Str option \<times> byte list" where
  "str_input alloc self inp =
     (case self of
        None \<Rightarrow> (- 1, self, inp)
      | Some s \<Rightarrow>
          if data s \<noteq> None then (- 1, self, inp)
          else
            (case get_dyn_input alloc MAX_STRING_SIZE inp of
               (r, rest) \<Rightarrow> (if r \<noteq> None then 0 else - 1, Some (s\<lparr>data := r\<rparr>), rest)))"

definition str_add_input ::
  "(nat \<Rightarrow> bool) \<Rightarrow> Str option \<Rightarrow> byte list \<Rightarrow> int \<times> Str option \<times> byte list" where
  "str_add_input alloc self inp =
     (case self of
        None \<Rightarrow> (- 1, self, inp)
      | Some s \<Rightarrow>
          (case data s of
             None \<Rightarrow>
               (case get_dyn_input alloc MAX_STRING_SIZE inp of
                  (r, rest) \<Rightarrow> (if r = None then - 2 else 0, Some (s\<lparr>data := r\<rparr>), rest))
           | Some b \<Rightarrow>
               (let self_data_size = length (str b) in
                case get_dyn_input alloc (MAX_STRING_SIZE - of_nat self_data_size) inp of
                  (None, rest) \<Rightarrow> (- 1, self, rest)
                | (Some buf, rest) \<Rightarrow>
                    if \<not> alloc (self_data_size + length (str buf) + 1) then (- 1, self, rest)
                    else
                      (0,
                       Some (s\<lparr>data :=
                         Some \<lparr>cap = self_data_size + length (str buf) + 1,
                               str = str b @ str buf\<rparr>\<rparr>),
                       rest))))"

text \<open>
  \<open>str_pop_back\<close> writes a zero byte one past the separator it found. When the
  separator is the zero byte, \<open>strrchr\<close> finds the terminator and the write goes to
  offset \<open>strlen + 1\<close>, outside an exactly sized block: the behaviour is undefined, and
  the model returns \<open>None\<close> for it.
\<close>

definition str_pop_back ::
  "(nat \<Rightarrow> bool) \<Rightarrow> Str option \<Rightarrow> byte \<Rightarrow> (int \<times> Str option) option" where
  "str_pop_back alloc self sep =
     (case self of
        None \<Rightarrow> Some (- 1, self)
      | Some s \<Rightarrow>
          (case data s of
             None \<Rightarrow> Some (- 1, self)
           | Some b \<Rightarrow>
               if length (str b) = 0 then Some (- 1, self)
               else
                 (case strrchr (str b) sep of
                    None \<Rightarrow> Some (- EINVAL, self)
                  | Some p \<Rightarrow>
                      if p + 1 \<ge> cap b then None
                      else
                        (let d = take (p + 1) (str b) in
                         if \<not> alloc (length d + 1)
                         then Some (- 1, Some (s\<lparr>data := Some (b\<lparr>str := d\<rparr>)\<rparr>))
                         else Some (0, Some (s\<lparr>data := Some \<lparr>cap = length d + 1, str = d\<rparr>\<rparr>))))))"

definition str_get_size :: "Str option \<Rightarrow> nat" where
  "str_get_size self =
     (case self of
        Some s \<Rightarrow> (case data s of Some b \<Rightarrow> length (str b) | None \<Rightarrow> 0)
      | None \<Rightarrow> 0)"

text \<open>
  \<open>str_get_data\<close> returns the content pointer; with a \<open>NULL\<close> handle it reaches the
  end of the function without a return value (the outer \<open>None\<close>).
\<close>

definition str_get_data :: "Str option \<Rightarrow> byte list option option" where
  "str_get_data self =
     (case self of
        Some s \<Rightarrow> (case data s of Some b \<Rightarrow> Some (Some (str b)) | None \<Rightarrow> Some None)
      | None \<Rightarrow> None)"

definition str_clear :: "Str option \<Rightarrow> Str option" where
  "str_clear self =
     (case self of
        Some s \<Rightarrow> (case data s of Some b \<Rightarrow> Some (s\<lparr>data := None\<rparr>) | None \<Rightarrow> self)
      | None \<Rightarrow> self)"

text \<open>
  \<open>str_free\<close> releases the content and, for a heap-owned handle, the handle itself:
  the result \<open>None\<close> says that no handle is left.
\<close>

definition str_free :: "Str option \<Rightarrow> Str option" where
  "str_free self =
     (case self of
        Some s \<Rightarrow> if is_dynamic s \<noteq> 0 then None else Some (s\<lparr>data := None\<rparr>)
      | None \<Rightarrow> None)"

definition str_rem_word ::
  "(nat \<Rightarrow> bool) \<Rightarrow> Str option \<Rightarrow> byte list option \<Rightarrow> int \<times> Str option" where
  "str_rem_word alloc self needle =
     (case self of
        None \<Rightarrow> (- 1, self)
      | Some s \<Rightarrow>
          (case data s of
             None \<Rightarrow> (- 1, self)
           | Some b \<Rightarrow>
               (case needle of
                  None \<Rightarrow> (- 1, self)
                | Some n \<Rightarrow>
                    (let self_data_size = length (str b); needle_size = length n in
                     if needle_size > self_data_size then (- EINVAL, self)
                     else
                       (case strstr (str b) n of
                          None \<Rightarrow> (- EINVAL, self)
                        | Some L \<Rightarrow>
                            (let d = take L (str b) @ drop (L + needle_size) (str b) in
                             if \<not> alloc (self_data_size - needle_size + 1)
                             then (- 1, Some (s\<lparr>data := Some (b\<lparr>str := d\<rparr>)\<rparr>))
                             else
                               (0,
                                Some (s\<lparr>data :=
                                  Some \<lparr>cap = self_data_size - needle_size + 1, str = d\<rparr>\<rparr>))))))))"

definition str_swap_word ::
  "(nat \<Rightarrow> bool) \<Rightarrow> Str option \<Rightarrow> byte list option \<Rightarrow> byte list option \<Rightarrow> int \<times> Str option" where
  "str_swap_word alloc self word1 word2 =
     (case self of
        None \<Rightarrow> (- 1, self)
      | Some s \<Rightarrow>
          (case (data s, word1, word2) of
             (Some b, Some w1, Some w2) \<Rightarrow>
               if is_dynamic s = 0 then (- 1, self)
               else
                 (let self_data_size = length (str b);
                      word1_size = length w1;
                      word2_size = length w2
                  in
                    case strstr (str b) w1 of
                      None \<Rightarrow> (- 1, self)
                    | Some L \<Rightarrow>
                        (let new_size = self_data_size - word1_size + word2_size in
                         if \<not> alloc (new_size + 1) then (- 1, self)
                         else
                           (0,
                            Some (s\<lparr>data :=
                              Some \<lparr>cap = new_size + 1,
                                    str = take L (str b) @ w2 @ drop (L + word1_size) (str b)\<rparr>\<rparr>))))
           | _ \<Rightarrow> (- 1, self)))"

text \<open>
  The case conversions walk the bytes up to the terminator. \<open>*p &= ~(1 << 5)\<close> clears
  bit 5 and \<open>*p |= (1 << 5)\<close> sets it. The comparisons with \<open>'a'\<close>, \<open>'z'\<close>, \<open>'A'\<close>,
  \<open>'Z'\<close> and \<open>' '\<close> (97, 122, 65, 90 and 32) come out the same for a signed and an
  unsigned \<open>char\<close>: a byte above 127 is outside both ranges either way.
\<close>

primrec upper_loop :: "byte list \<Rightarrow> byte list" where
  "upper_loop [] = []"
| "upper_loop (c # cs) =
     (if 97 \<le> c \<and> c \<le> 122 then (c AND NOT (push_bit 5 1)) # upper_loop cs
      else c # upper_loop cs)"

primrec lower_loop :: "byte list \<Rightarrow> byte list" where
  "lower_loop [] = []"
| "lower_loop (c # cs) =
     (if 65 \<le> c \<and> c \<le> 90 then (c OR push_bit 5 1) # lower_loop cs
      else c # lower_loop cs)"

primrec title_loop :: "bool \<Rightarrow> byte list \<Rightarrow> byte list" where
  "title_loop flag [] = []"
| "title_loop flag (c # cs) =
     (if flag \<and> 97 \<le> c \<and> c \<le> 122 then (c AND NOT (push_bit 5 1)) # title_loop False cs
      else if c = 32 then c # title_loop True cs
      else c # title_loop flag cs)"

definition str_to_upper :: "Str option \<Rightarrow> int \<times> Str option" where
  "str_to_upper self =
     (case self of
        None \<Rightarrow> (- 1, self)
      | Some s \<Rightarrow>
          (case data s of
             None \<Rightarrow> (- 1, self)
           | Some b \<Rightarrow> (0, Some (s\<lparr>data := Some (b\<lparr>str := upper_loop (str b)\<rparr>)\<rparr>))))"

definition str_to_lower :: "Str option \<Rightarrow> int \<times> Str option" where
  "str_to_lower self =
     (case self of
        None \<Rightarrow> (- 1, self)
      | Some s \<Rightarrow>
          (case data s of
             None \<Rightarrow> (- 1, self)
           | Some b \<Rightarrow> (0, Some (s\<lparr>data := Some (b\<lparr>str := lower_loop (str b)\<rparr>)\<rparr>))))"

definition str_to_title_case :: "Str option \<Rightarrow> int \<times> Str option" where
  "str_to_title_case self =
     (case self of
        None \<Rightarrow> (- 1, self)
      | Some s \<Rightarrow>
          (case data s of
             None \<Rightarrow> (- 1, self)
           | Some b \<Rightarrow>
               if length (str b) = 0 then (- 1, self)
               else (0, Some (s\<lparr>data := Some (b\<lparr>str := title_loop True (str b)\<rparr>)\<rparr>))))"

text \<open>
  \<open>str_reverse\<close>: the two indices \<open>head\<close> and \<open>tail\<close> move towards each other and the
  bytes under them are swapped through \<open>buf\<close>.
\<close>

function swap_loop :: "byte list \<Rightarrow> nat \<Rightarrow> nat \<Rightarrow> byte list" where
  "swap_loop d head tail =
     (if head < tail
      then swap_loop ((d[head := d ! tail])[tail := d ! head]) (head + 1) (tail - 1)
      else d)"
  by pat_completeness auto
termination
  by (relation "measure (\<lambda>(d, head, tail). tail - head)") auto

declare swap_loop.simps [simp del]

definition str_reverse :: "Str option \<Rightarrow> int \<times> Str option" where
  "str_reverse self =
     (case self of
        None \<Rightarrow> (- 1, self)
      | Some s \<Rightarrow>
          (case data s of
             None \<Rightarrow> (- 1, self)
           | Some b \<Rightarrow>
               if length (str b) = 0 then (- 1, self)
               else
                 (0,
                  Some (s\<lparr>data :=
                    Some (b\<lparr>str := swap_loop (str b) 0 (length (str b) - 1)\<rparr>)\<rparr>))))"

text \<open>\<open>str_is_empty\<close> returns no value for a \<open>NULL\<close> handle (\<open>None\<close>).\<close>

definition str_is_empty :: "Str option \<Rightarrow> bool option" where
  "str_is_empty self =
     (case self of
        Some s \<Rightarrow>
          (case data s of
             None \<Rightarrow> Some True
           | Some b \<Rightarrow> if length (str b) = 0 then Some True else Some False)
      | None \<Rightarrow> None)"

text \<open>
  The operations that return a status, as one datatype, and the call of one of them on a
  handle. \<open>str_input\<close> and \<open>str_add_input\<close> read the stream \<open>inp\<close>. The result is
  \<open>None\<close> where the call has undefined behaviour.
\<close>

datatype str_op =
    Op_add "byte list option"
  | Op_input
  | Op_add_input
  | Op_pop_back byte
  | Op_rem_word "byte list option"
  | Op_swap_word "byte list option" "byte list option"
  | Op_to_upper
  | Op_to_lower
  | Op_to_title_case
  | Op_reverse

fun call_op ::
  "(nat \<Rightarrow> bool) \<Rightarrow> byte list \<Rightarrow> Str option \<Rightarrow> str_op \<Rightarrow> (int \<times> Str option) option" where
  "call_op alloc inp self (Op_add d) = Some (str_add alloc self d)"
| "call_op alloc inp self Op_input =
     (case str_input alloc self inp of (r, self', rest) \<Rightarrow> Some (r, self'))"
| "call_op alloc inp self Op_add_input =
     (case str_add_input alloc self inp of (r, self', rest) \<Rightarrow> Some (r, self'))"
| "call_op alloc inp self (Op_pop_back sep) = str_pop_back alloc self sep"
| "call_op alloc inp self (Op_rem_word needle) = Some (str_rem_word alloc self needle)"
| "call_op alloc inp self (Op_swap_word word1 word2) =
     Some (str_swap_word alloc self word1 word2)"
| "call_op alloc inp self Op_to_upper = Some (str_to_upper self)"
| "call_op alloc inp self Op_to_lower = Some (str_to_lower self)"
| "call_op alloc inp self Op_to_title_case = Some (str_to_title_case self)"
| "call_op alloc inp self Op_reverse = Some (str_reverse self)"

text \<open>The operations that give a handle its content: on absent content they succeed.\<close>

fun populates :: "str_op \<Rightarrow> bool" where
  "populates (Op_add d) = True"
| "populates Op_input = True"
| "populates Op_add_input = True"
| "populates other = False"

section \<open>HandleRegistry: the list of pointer counters\<close>

text \<open>
  The nodes live in a store from addresses to nodes; \<open>free\<close> removes a node from the
  store, and the caller's variable \<open>*head\<close> is passed in and returned. A handle is
  known to the registry only by its address. A call ends in one of three ways: it
  returns a status; it reaches the end of the function without a \<open>return\<close>; or it has
  no defined result, because it reads through a pointer to no live node or never
  leaves its loop.
\<close>

type_synonym addr = nat

record Pointer_counter =
  str_ptr :: "addr option"
  nxt :: "addr option"
  counter :: nat

type_synonym pc_heap = "addr \<Rightarrow> Pointer_counter option"

datatype result = Return int | No_value | Undefined

text \<open>
  \<open>pointer_counter_create\<close>: \<open>pc_alloc\<close> and \<open>str_alloc\<close> are what its two \<open>calloc\<close>
  calls return and \<open>mutex_ok\<close> says whether \<open>pthread_mutex_init\<close> returned 0.
\<close>

definition pointer_counter_create ::
  "addr option \<Rightarrow> addr option \<Rightarrow> bool \<Rightarrow> pc_heap \<Rightarrow> pc_heap \<times> addr option" where
  "pointer_counter_create pc_alloc str_alloc mutex_ok h =
     (case pc_alloc of
        None \<Rightarrow> (h, None)
      | Some pc \<Rightarrow>
          (case str_alloc of
             None \<Rightarrow> (h, None)
           | Some sp \<Rightarrow>
               if \<not> mutex_ok then (h, None)
               else (h(pc \<mapsto> \<lparr>str_ptr = Some sp, nxt = None, counter = 0\<rparr>), Some pc)))"

partial_function (option) last_node :: "pc_heap \<Rightarrow> addr \<Rightarrow> addr option" where
  "last_node h head_ptr =
     (case h head_ptr of
        None \<Rightarrow> None
      | Some n \<Rightarrow> (case nxt n of None \<Rightarrow> Some head_ptr | Some q \<Rightarrow> last_node h q))"

definition pointer_counter_add ::
  "addr option \<Rightarrow> addr option \<Rightarrow> bool \<Rightarrow> pc_heap \<Rightarrow> addr option \<Rightarrow> addr option
    \<Rightarrow> result \<times> pc_heap \<times> addr option" where
  "pointer_counter_add pc_alloc str_alloc mutex_ok h head sp =
     (if sp = None then (Return (- 1), h, head)
      else
        (case pointer_counter_create pc_alloc str_alloc mutex_ok h of
           (h1, None) \<Rightarrow> (Return (- 1), h1, head)
         | (h1, Some pc_ptr) \<Rightarrow>
             (case h1 pc_ptr of
                None \<Rightarrow> (Undefined, h1, head)
              | Some pc \<Rightarrow>
                  (case head of
                     None \<Rightarrow>
                       (Return 0,
                        h1(pc_ptr \<mapsto> pc\<lparr>counter := counter pc + 1, str_ptr := sp, nxt := None\<rparr>),
                        Some pc_ptr)
                   | Some first \<Rightarrow>
                       (case last_node h1 first of
                          None \<Rightarrow> (Undefined, h1, head)
                        | Some t \<Rightarrow>
                            (case h1 t of
                               None \<Rightarrow> (Undefined, h1, head)
                             | Some tn \<Rightarrow>
                                 (let h2 = h1(t \<mapsto> tn\<lparr>nxt := Some pc_ptr\<rparr>) in
                                  case h2 pc_ptr of
                                    None \<Rightarrow> (Undefined, h2, head)
                                  | Some pn \<Rightarrow>
                                      (Return 0,
                                       h2(pc_ptr \<mapsto>
                                         pn\<lparr>counter := counter pn + 1, nxt := None, str_ptr := sp\<rparr>),
                                       head))))))))"

text \<open>
  The \<open>for\<close> loop of \<open>pointer_counter_free\<close>: the first argument counts the rounds
  that are left, \<open>(*head)->counter - i\<close>. When none is left the function ends without
  a \<open>return\<close>.
\<close>

fun free_scan ::
  "nat \<Rightarrow> pc_heap \<Rightarrow> addr option \<Rightarrow> addr option \<Rightarrow> addr option \<Rightarrow> result \<times> pc_heap" where
  "free_scan 0 h pc_iter pc_iter_back sp = (No_value, h)"
| "free_scan (Suc n) h pc_iter pc_iter_back sp =
     (case pc_iter of
        None \<Rightarrow> (Return (- 1), h)
      | Some it \<Rightarrow>
          (case h it of
             None \<Rightarrow> (Undefined, h)
           | Some node \<Rightarrow>
               (case pc_iter_back of
                  None \<Rightarrow> (Undefined, h)
                | Some bk \<Rightarrow>
                    (case h bk of
                       None \<Rightarrow> (Undefined, h)
                     | Some back \<Rightarrow>
                         if str_ptr node = sp
                         then (Return 0, (h(bk \<mapsto> back\<lparr>nxt := nxt node\<rparr>))(it := None))
                         else free_scan n h (nxt node) (nxt back) sp))))"

definition pointer_counter_free ::
  "pc_heap \<Rightarrow> addr option \<Rightarrow> addr option \<Rightarrow> result \<times> pc_heap \<times> addr option" where
  "pointer_counter_free h head sp =
     (case head of
        None \<Rightarrow> (Return (- 1), h, head)
      | Some first \<Rightarrow>
          if sp = None then (Return (- 1), h, head)
          else
            (case h first of
               None \<Rightarrow> (Undefined, h, head)
             | Some hn \<Rightarrow>
                 if str_ptr hn = sp then (Return 0, h(first := None), head)
                 else
                   (case free_scan (counter hn) h (nxt hn) (Some first) sp of
                      (r, h') \<Rightarrow> (r, h', head))))"

section \<open>Notions used to state the results\<close>


text \<open>
  The size of the staging buffer of \<open>get_dyn_input\<close> once \<open>n\<close> bytes are stored, and
  the line at the front of a stream: the bytes before its first newline.
\<close>

definition staging_size :: "nat \<Rightarrow> nat" where
  "staging_size n = CHUNK_SIZE * (n div CHUNK_SIZE + 1)"

definition line_of :: "byte list \<Rightarrow> byte list" where
  "line_of inp = takeWhile (\<lambda>c. c \<noteq> 10) inp"

text \<open>A handle whose block, if it has one, is exactly one byte longer than its string.\<close>

definition exact_size :: "Str option \<Rightarrow> bool" where
  "exact_size self =
     (case self of
        None \<Rightarrow> True
      | Some s \<Rightarrow> (case data s of None \<Rightarrow> True | Some b \<Rightarrow> cap b = length (str b) + 1))"

section \<open>Facts about the library functions and the loops\<close>

lemma strstr_empty: "strstr d [] = Some 0"
  by (cases d) simp_all


lemma strstr_SomeD:
  "strstr d n = Some i \<Longrightarrow> i + length n \<le> length d \<and> take (length n) (drop i d) = n"
proof (induction d arbitrary: i)
  case Nil
  then show ?case by (simp split: if_splits)
next
  case (Cons c cs)
  show ?case
  proof (cases "take (length n) (c # cs) = n")
    case True
    with Cons.prems have "i = 0" by simp
    moreover have "length (take (length n) (c # cs)) = length n"
      using True by simp
    then have "length n \<le> length (c # cs)" by simp
    ultimately show ?thesis using True by simp
  next
    case False
    with Cons.prems obtain j where j: "strstr cs n = Some j" "i = Suc j"
      by auto
    from Cons.IH [OF j(1)] j(2) show ?thesis by simp
  qed
qed


lemma strstr_first:
  "\<lbrakk>d = p @ w @ q; \<forall>p' q'. d = p' @ w @ q' \<longrightarrow> length p \<le> length p'\<rbrakk>
   \<Longrightarrow> strstr d w = Some (length p)"
proof (induction p arbitrary: d)
  case Nil
  then have "take (length w) d = w" by simp
  then show ?case by (cases d) auto
next
  case (Cons x p)
  have d: "d = x # (p @ w @ q)" using Cons.prems(1) by simp
  have "take (length w) d \<noteq> w"
  proof
    assume t: "take (length w) d = w"
    then have "d = [] @ w @ drop (length w) d"
      by (metis append_Nil append_take_drop_id)
    with Cons.prems(2) have "length (x # p) \<le> length ([]::byte list)" by blast
    then show False by simp
  qed
  moreover have "strstr (p @ w @ q) w = Some (length p)"
  proof (rule Cons.IH [OF refl], intro allI impI)
    fix p' q' assume "p @ w @ q = p' @ w @ q'"
    then have "d = (x # p') @ w @ q'" using d by simp
    with Cons.prems(2) have "length (x # p) \<le> length (x # p')" by blast
    then show "length p \<le> length p'" by simp
  qed
  ultimately show ?case using d by simp
qed




lemma swap_loop_length:
  "length (swap_loop d head tail) = length d"
proof (induction d head tail rule: swap_loop.induct)
  case (1 d head tail)
  show ?case
  proof (cases "head < tail")
    case True
    then show ?thesis using "1.IH" by (subst swap_loop.simps) simp
  next
    case False
    then show ?thesis by (subst swap_loop.simps) simp
  qed
qed

lemma swap_loop_nth:
  "\<lbrakk>tail < length d; i < length d\<rbrakk> \<Longrightarrow>
   swap_loop d head tail ! i =
     (if head \<le> i \<and> i \<le> tail then d ! (head + tail - i) else d ! i)"
proof (induction d head tail rule: swap_loop.induct)
  case (1 d head tail)
  show ?case
  proof (cases "head < tail")
    case True
    let ?d = "(d[head := d ! tail])[tail := d ! head]"
    have ih: "swap_loop ?d (head + 1) (tail - 1) ! i =
        (if head + 1 \<le> i \<and> i \<le> tail - 1 then ?d ! (head + 1 + (tail - 1) - i) else ?d ! i)"
      using "1.IH" [OF True] "1.prems" True by simp
    have sw: "swap_loop d head tail = swap_loop ?d (head + 1) (tail - 1)"
      using True by (subst swap_loop.simps) simp
    show ?thesis
      unfolding sw ih using True "1.prems"
      by (auto simp: nth_list_update)
  next
    case False
    then have "swap_loop d head tail = d" by (subst swap_loop.simps) simp
    moreover from False have "head \<le> i \<and> i \<le> tail \<Longrightarrow> head + tail - i = i" by arith
    ultimately show ?thesis by auto
  qed
qed

lemma swap_loop_rev:
  assumes "d \<noteq> []"
  shows "swap_loop d 0 (length d - 1) = rev d"
proof (rule nth_equalityI)
  show "length (swap_loop d 0 (length d - 1)) = length (rev d)"
    by (simp add: swap_loop_length)
next
  fix i assume "i < length (swap_loop d 0 (length d - 1))"
  then have i: "i < length d" by (simp add: swap_loop_length)
  with assms have "swap_loop d 0 (length d - 1) ! i = d ! (length d - 1 - i)"
    by (subst swap_loop_nth) auto
  also have "\<dots> = rev d ! i" using i by (simp add: rev_nth)
  finally show "swap_loop d 0 (length d - 1) ! i = rev d ! i" .
qed


lemma data_None_update [simp]: "data s = None \<Longrightarrow> s\<lparr>data := None\<rparr> = s"
  by (cases s) simp




lemma staging_size_mono: "m \<le> n \<Longrightarrow> staging_size m \<le> staging_size n"
  by (simp add: staging_size_def CHUNK_SIZE_def div_le_mono)

lemma staging_size_step:
  "staging_size (Suc n) =
     (if n + 1 \<ge> staging_size n then staging_size n + CHUNK_SIZE else staging_size n)"
proof -
  define d r where "d = n div 10" and "r = n mod 10"
  have n: "n = 10 * d + r" and r: "r < 10" by (simp_all add: d_def r_def)
  show ?thesis
  proof (cases "r = 9")
    case True
    then have "Suc n mod 10 = 0" by (simp add: mod_Suc r_def)
    then have "Suc n div 10 = Suc d" by (simp add: div_Suc d_def)
    moreover have "10 * (d + 1) \<le> n + 1" using n True by simp
    ultimately show ?thesis by (simp add: staging_size_def CHUNK_SIZE_def d_def)
  next
    case False
    then have "Suc n mod 10 \<noteq> 0" using r by (simp add: mod_Suc r_def)
    then have "Suc n div 10 = d" by (simp add: div_Suc d_def)
    moreover have "\<not> 10 * (d + 1) \<le> n + 1" using n r False by simp
    ultimately show ?thesis by (simp add: staging_size_def CHUNK_SIZE_def d_def)
  qed
qed

lemma read_chars_result:
  assumes "\<forall>k. alloc k" and "current_size = staging_size (length buf)"
  shows "fst (read_chars alloc mx current_size buf inp) =
     (if line_of inp \<noteq> [] \<and> unat (mx - 1) \<le> staging_size (length buf + length (line_of inp))
      then None else Some (buf @ line_of inp))"
  using assms(2)
proof (induction inp arbitrary: buf current_size)
  case Nil
  then show ?case by (simp add: line_of_def)
next
  case (Cons c rest)
  show ?case
  proof (cases "c = 10")
    case True
    then show ?thesis by (simp add: line_of_def)
  next
    case False
    let ?cur = "staging_size (Suc (length buf))"
    have line: "line_of (c # rest) = c # line_of rest"
      using False by (simp add: line_of_def)
    have step: "read_chars alloc mx current_size buf (c # rest) =
        (if unat (mx - 1) \<le> ?cur then (None, rest)
         else read_chars alloc mx ?cur (buf @ [c]) rest)"
      using False assms(1) Cons.prems by (simp add: staging_size_step)
    show ?thesis
    proof (cases "unat (mx - 1) \<le> ?cur")
      case True
      have "?cur \<le> staging_size (length buf + length (line_of (c # rest)))"
        by (rule staging_size_mono) (simp add: line)
      with True show ?thesis unfolding step by (simp add: line)
    next
      case False
      have ih: "fst (read_chars alloc mx ?cur (buf @ [c]) rest) =
         (if line_of rest \<noteq> [] \<and>
             unat (mx - 1) \<le> staging_size (Suc (length buf + length (line_of rest)))
          then None else Some (buf @ c # line_of rest))"
        using Cons.IH [of ?cur "buf @ [c]"] by simp
      show ?thesis
      proof (cases "line_of rest = []")
        case True
        with False show ?thesis unfolding step by (simp add: ih line)
      next
        case nonempty: False
        with False show ?thesis unfolding step by (simp add: ih line)
      qed
    qed
  qed
qed

lemma get_dyn_input_result:
  assumes "\<forall>k. alloc k"
  shows "fst (get_dyn_input alloc max_str_size inp) =
     (if line_of inp \<noteq> [] \<and> unat (max_str_size - 1) \<le> staging_size (length (line_of inp))
      then None
      else Some \<lparr>cap = length (line_of inp) + 1, str = takeWhile (\<lambda>b. b \<noteq> 0) (line_of inp)\<rparr>)"
proof -
  have "fst (read_chars alloc max_str_size CHUNK_SIZE [] inp) =
     (if line_of inp \<noteq> []
         \<and> unat (max_str_size - 1) \<le> staging_size (length ([] :: byte list) + length (line_of inp))
      then None else Some ([] @ line_of inp))"
    using assms by (rule read_chars_result) (simp add: staging_size_def CHUNK_SIZE_def)
  then show ?thesis
    using assms
    by (cases "read_chars alloc max_str_size CHUNK_SIZE [] inp")
       (auto simp: get_dyn_input_def split: if_splits)
qed

lemma lower_case_byte:
  fixes c :: byte
  assumes "97 \<le> c" and "c \<le> 122"
  shows "c \<in> {97, 98, 99, 100, 101, 102, 103, 104, 105, 106, 107, 108, 109, 110, 111, 112, 113,
    114, 115, 116, 117, 118, 119, 120, 121, 122}"
proof -
  have "97 \<le> unat c" and "unat c \<le> 122"
    using assms by (simp_all add: word_le_nat_alt)
  then have "unat c \<in> {97, 98, 99, 100, 101, 102, 103, 104, 105, 106, 107, 108, 109, 110, 111,
    112, 113, 114, 115, 116, 117, 118, 119, 120, 121, 122}"
    by (simp add: numeral_eq_Suc) arith
  then have "of_nat (unat c) \<in> (of_nat :: nat \<Rightarrow> byte) ` {97, 98, 99, 100, 101, 102, 103, 104,
    105, 106, 107, 108, 109, 110, 111, 112, 113, 114, 115, 116, 117, 118, 119, 120, 121, 122}"
    by (rule imageI)
  then show ?thesis by simp
qed

lemma upper_case_byte:
  fixes c :: byte
  assumes "65 \<le> c" and "c \<le> 90"
  shows "c \<in> {65, 66, 67, 68, 69, 70, 71, 72, 73, 74, 75, 76, 77, 78, 79, 80, 81, 82, 83, 84,
    85, 86, 87, 88, 89, 90}"
proof -
  have "65 \<le> unat c" and "unat c \<le> 90"
    using assms by (simp_all add: word_le_nat_alt)
  then have "unat c \<in> {65, 66, 67, 68, 69, 70, 71, 72, 73, 74, 75, 76, 77, 78, 79, 80, 81, 82,
    83, 84, 85, 86, 87, 88, 89, 90}"
    by (simp add: numeral_eq_Suc) arith
  then have "of_nat (unat c) \<in> (of_nat :: nat \<Rightarrow> byte) ` {65, 66, 67, 68, 69, 70, 71, 72, 73,
    74, 75, 76, 77, 78, 79, 80, 81, 82, 83, 84, 85, 86, 87, 88, 89, 90}"
    by (rule imageI)
  then show ?thesis by simp
qed

lemma to_upper_byte:
  fixes c :: byte
  assumes "97 \<le> c" and "c \<le> 122"
  shows "c AND - 33 = c - 32" and "65 \<le> c - 32" and "c - 32 \<le> 90"
  using lower_case_byte [OF assms] by auto

lemma to_lower_byte:
  fixes c :: byte
  assumes "65 \<le> c" and "c \<le> 90"
  shows "c OR 32 = c + 32" and "97 \<le> c + 32" and "c + 32 \<le> 122"
  using upper_case_byte [OF assms] by auto

lemma upper_loop_map:
  "upper_loop d = map (\<lambda>c. if 97 \<le> c \<and> c \<le> 122 then c - 32 else c) d"
  by (induction d) (simp_all add: to_upper_byte)

lemma lower_loop_map:
  "lower_loop d = map (\<lambda>c. if 65 \<le> c \<and> c \<le> 90 then c + 32 else c) d"
  by (induction d) (simp_all add: to_lower_byte)

lemma upper_byte_not_lower:
  fixes c :: byte
  shows "97 \<le> c \<Longrightarrow> c \<le> 122 \<Longrightarrow> \<not> (97 \<le> c - 32 \<and> c - 32 \<le> 122)"
  using lower_case_byte [of c] by auto

lemma upper_loop_idem: "upper_loop (upper_loop d) = upper_loop d"
  by (induction d) (auto simp: to_upper_byte upper_byte_not_lower)

lemma lower_upper_byte:
  fixes c :: byte
  shows "(let u = (if 97 \<le> c \<and> c \<le> 122 then c - 32 else c)
          in if 65 \<le> u \<and> u \<le> 90 then u + 32 else u)
         = (if 65 \<le> c \<and> c \<le> 90 then c + 32 else c)"
proof (cases "97 \<le> c \<and> c \<le> 122")
  case True
  with lower_case_byte [of c] show ?thesis by auto
next
  case False
  then show ?thesis by auto
qed

lemma lower_upper_loop: "lower_loop (upper_loop d) = lower_loop d"
  using lower_upper_byte by (simp add: upper_loop_map lower_loop_map Let_def)

lemma lower_loop_no_upper: "c \<in> set (lower_loop d) \<Longrightarrow> \<not> (65 \<le> c \<and> c \<le> 90)"
proof (induction d)
  case Nil
  then show ?case by simp
next
  case (Cons x d)
  show ?case
  proof (cases "65 \<le> x \<and> x \<le> 90")
    case True
    with upper_case_byte [of x] have "\<not> (65 \<le> x + 32 \<and> x + 32 \<le> 90)" by auto
    with True Cons show ?thesis by (auto simp: to_lower_byte)
  next
    case False
    with Cons show ?thesis by auto
  qed
qed

lemma upper_loop_length [simp]: "length (upper_loop d) = length d"
  by (induction d) simp_all

lemma lower_loop_length [simp]: "length (lower_loop d) = length d"
  by (induction d) simp_all

lemma title_loop_length [simp]: "length (title_loop flag d) = length d"
  by (induction d arbitrary: flag) simp_all

lemma read_chars_Some:
  "read_chars alloc mx current_size buf inp = (Some r, rest) \<Longrightarrow> r = buf @ line_of inp"
proof (induction inp arbitrary: buf current_size)
  case Nil
  then show ?case by (simp add: line_of_def)
next
  case (Cons c inp)
  show ?case
  proof (cases "c = 10")
    case True
    with Cons.prems show ?thesis by (simp add: line_of_def)
  next
    case False
    with Cons.prems obtain cs where "read_chars alloc mx cs (buf @ [c]) inp = (Some r, rest)"
      by (auto split: if_splits)
    from Cons.IH [OF this] False show ?thesis by (simp add: line_of_def)
  qed
qed

lemma get_dyn_input_exact:
  assumes "get_dyn_input alloc mx inp = (Some b, rest)" and "0 \<notin> set (line_of inp)"
  shows "cap b = length (str b) + 1"
proof -
  from assms(1) obtain buf where r: "read_chars alloc mx CHUNK_SIZE [] inp = (Some buf, rest)"
    and b: "b = \<lparr>cap = length buf + 1, str = takeWhile (\<lambda>b. b \<noteq> 0) buf\<rparr>"
    by (auto simp: get_dyn_input_def split: if_splits prod.splits option.splits)
  from read_chars_Some [OF r] have "buf = line_of inp" by simp
  with assms(2) have "takeWhile (\<lambda>b. b \<noteq> 0) buf = buf"
    by (auto simp: takeWhile_eq_all_conv)
  with b show ?thesis by simp
qed

lemma get_dyn_input_Some:
  assumes "get_dyn_input alloc mx inp = (Some b, rest)"
  shows "b = \<lparr>cap = length (line_of inp) + 1, str = takeWhile (\<lambda>b. b \<noteq> 0) (line_of inp)\<rparr>"
proof -
  from assms obtain buf where r: "read_chars alloc mx CHUNK_SIZE [] inp = (Some buf, rest)"
    and b: "b = \<lparr>cap = length buf + 1, str = takeWhile (\<lambda>b. b \<noteq> 0) buf\<rparr>"
    by (auto simp: get_dyn_input_def split: if_splits prod.splits option.splits)
  from read_chars_Some [OF r] have "buf = line_of inp" by simp
  with b show ?thesis by simp
qed

section \<open>The claims\<close>

text \<open>
  C1. The claim: \<open>str_to_title_case\<close> forces to upper case exactly the first
  alphabetic byte of the string and of each word after a space, and a byte that is
  already upper case at such a place is itself that first byte, so no later byte of
  its word is altered. The code clears its flag only when it converts a lower-case
  byte: after an upper-case first letter the flag stays set and the next lower-case
  byte of the same word is converted. On the content \<open>Hello\<close> the call returns 0
  and leaves \<open>HEllo\<close>.
\<close>

theorem title_case_Hello:
  "str_to_title_case (Some \<lparr>data = Some \<lparr>cap = 6, str = [72, 101, 108, 108, 111]\<rparr>, is_dynamic = 1\<rparr>)
     = (0, Some \<lparr>data = Some \<lparr>cap = 6, str = [72, 69, 108, 108, 111]\<rparr>, is_dynamic = 1\<rparr>)"
  by (simp add: str_to_title_case_def)

text \<open>
  C2. The claim as stated does not hold: \<open>get_dyn_input\<close> bounds the size of its
  staging buffer, which grows by 10 bytes at a time, not the length of the line. With
  the bound 25 a line of 20 bytes is refused although its length stays below the
  bound and every allocation is granted: its twentieth byte makes the buffer grow to
  30 bytes, more than the bound allows.
\<close>

theorem long_line_refused:
  "fst (get_dyn_input (\<lambda>n. True) 25
          [97, 97, 97, 97, 97, 97, 97, 97, 97, 97, 97, 97, 97, 97, 97, 97, 97, 97, 97, 97, 10])
     = None
   \<and> length (takeWhile (\<lambda>c. c \<noteq> 10)
          [97, 97, 97, 97, 97, 97, 97, 97, 97, 97, 97, 97, 97, 97, 97, 97, 97, 97, 97, 97, 10 :: byte])
       < unat (25 :: size_t)"
  by (simp add: get_dyn_input_def CHUNK_SIZE_def)

text \<open>
  C2, amended. For a bound of at least 1 and a stream whose first line (the bytes
  before the first newline or the end of the stream) holds no zero byte,
  \<open>get_dyn_input\<close> returns either exactly that line, in a block of exactly its length
  plus one, or nothing; an empty line gives an empty string, not an absent one. When
  no allocation is refused, it returns nothing whenever the line is not empty and the
  staging buffer it needs, \<open>10 * (n div 10 + 1)\<close> bytes for a line of \<open>n\<close> bytes,
  reaches or exceeds \<open>max_str_size\<close>, and it returns the line whenever the line is
  empty or that buffer size stays below \<open>max_str_size - 1\<close>.
\<close>

theorem get_dyn_input_bound:
  assumes "0 \<notin> set (takeWhile (\<lambda>c. c \<noteq> 10) inp)" and "max_str_size \<noteq> 0"
  shows "(fst (get_dyn_input alloc max_str_size inp) = None
          \<or> fst (get_dyn_input alloc max_str_size inp)
              = Some \<lparr>cap = length (takeWhile (\<lambda>c. c \<noteq> 10) inp) + 1,
                      str = takeWhile (\<lambda>c. c \<noteq> 10) inp\<rparr>)
       \<and> ((\<forall>k. alloc k) \<and> takeWhile (\<lambda>c. c \<noteq> 10) inp \<noteq> []
            \<and> unat max_str_size \<le> 10 * (length (takeWhile (\<lambda>c. c \<noteq> 10) inp) div 10 + 1)
          \<longrightarrow> fst (get_dyn_input alloc max_str_size inp) = None)
       \<and> ((\<forall>k. alloc k)
            \<and> (takeWhile (\<lambda>c. c \<noteq> 10) inp = []
                \<or> 10 * (length (takeWhile (\<lambda>c. c \<noteq> 10) inp) div 10 + 1) + 1 < unat max_str_size)
          \<longrightarrow> fst (get_dyn_input alloc max_str_size inp)
              = Some \<lparr>cap = length (takeWhile (\<lambda>c. c \<noteq> 10) inp) + 1,
                      str = takeWhile (\<lambda>c. c \<noteq> 10) inp\<rparr>)"
proof (intro conjI impI)
  have nz: "takeWhile (\<lambda>b. b \<noteq> 0) (line_of inp) = line_of inp"
    using assms(1) by (auto simp: takeWhile_eq_all_conv line_of_def)
  have m: "unat (max_str_size - 1) = unat max_str_size - 1"
    using assms(2) by (rule unat_minus_one)
  show "fst (get_dyn_input alloc max_str_size inp) = None
          \<or> fst (get_dyn_input alloc max_str_size inp)
              = Some \<lparr>cap = length (takeWhile (\<lambda>c. c \<noteq> 10) inp) + 1,
                      str = takeWhile (\<lambda>c. c \<noteq> 10) inp\<rparr>"
  proof (cases "get_dyn_input alloc max_str_size inp")
    case (Pair r rest)
    show ?thesis
    proof (cases r)
      case None
      with Pair show ?thesis by simp
    next
      case (Some b)
      with Pair get_dyn_input_Some [of alloc max_str_size inp b rest] nz
      show ?thesis by (simp add: line_of_def)
    qed
  qed
  have r: "fst (get_dyn_input alloc max_str_size inp) =
     (if takeWhile (\<lambda>c. c \<noteq> 10) inp \<noteq> []
         \<and> unat max_str_size - 1 \<le> 10 * (length (takeWhile (\<lambda>c. c \<noteq> 10) inp) div 10 + 1)
      then None
      else Some \<lparr>cap = length (takeWhile (\<lambda>c. c \<noteq> 10) inp) + 1,
                 str = takeWhile (\<lambda>c. c \<noteq> 10) inp\<rparr>)" if "\<forall>k. alloc k"
    using get_dyn_input_result [OF that, of max_str_size inp] nz
    unfolding m by (simp add: line_of_def staging_size_def CHUNK_SIZE_def)
  {
    assume a: "(\<forall>k. alloc k) \<and> takeWhile (\<lambda>c. c \<noteq> 10) inp \<noteq> []
            \<and> unat max_str_size \<le> 10 * (length (takeWhile (\<lambda>c. c \<noteq> 10) inp) div 10 + 1)"
    then have al: "\<forall>k. alloc k" by blast
    from a have "takeWhile (\<lambda>c. c \<noteq> 10) inp \<noteq> []
        \<and> unat max_str_size - 1 \<le> 10 * (length (takeWhile (\<lambda>c. c \<noteq> 10) inp) div 10 + 1)"
      by linarith
    then show "fst (get_dyn_input alloc max_str_size inp) = None"
      unfolding r [OF al] by simp
  }
  {
    assume a: "(\<forall>k. alloc k)
            \<and> (takeWhile (\<lambda>c. c \<noteq> 10) inp = []
                \<or> 10 * (length (takeWhile (\<lambda>c. c \<noteq> 10) inp) div 10 + 1) + 1 < unat max_str_size)"
    then have al: "\<forall>k. alloc k" by blast
    from a have "\<not> (takeWhile (\<lambda>c. c \<noteq> 10) inp \<noteq> []
        \<and> unat max_str_size - 1 \<le> 10 * (length (takeWhile (\<lambda>c. c \<noteq> 10) inp) div 10 + 1))"
      by linarith
    then show "fst (get_dyn_input alloc max_str_size inp)
              = Some \<lparr>cap = length (takeWhile (\<lambda>c. c \<noteq> 10) inp) + 1,
                      str = takeWhile (\<lambda>c. c \<noteq> 10) inp\<rparr>"
      unfolding r [OF al] by simp
  }
qed

theorem get_dyn_input_bound_witness:
  "fst (get_dyn_input (\<lambda>n. True) 12 [104, 105, 10, 120])
      = Some \<lparr>cap = 3, str = [104, 105]\<rparr>
   \<and> fst (get_dyn_input (\<lambda>n. True) 10 [104, 105, 10, 120]) = None
   \<and> fst (get_dyn_input (\<lambda>n. True) 1 [10, 120]) = Some \<lparr>cap = 1, str = []\<rparr>"
  using get_dyn_input_bound [of "[104, 105, 10, 120]" 12 "\<lambda>n. True"]
    get_dyn_input_bound [of "[104, 105, 10, 120]" 10 "\<lambda>n. True"]
    get_dyn_input_bound [of "[10, 120]" 1 "\<lambda>n. True"]
  by simp

text \<open>
  The guard of the source is \<open>current_size >= max_str_size - 1\<close>: a buffer of exactly
  \<open>max_str_size - 1\<close> bytes is refused too. With the bound 11 the one-byte line \<open>a\<close> is
  refused on its first byte.
\<close>

lemma short_line_refused:
  "fst (get_dyn_input (\<lambda>n. True) 11 [97, 10]) = None
   \<and> length (takeWhile (\<lambda>c. c \<noteq> 10) [97, 10 :: byte]) < unat (11 :: size_t)"
  by (simp add: get_dyn_input_def CHUNK_SIZE_def)



text \<open>
  C4. The claim: adding a handle and freeing it at once succeeds and leaves no node
  for it. In a registry that already holds two other handles the third node is never
  reached: every node's \<open>counter\<close> is 1, so the loop of \<open>pointer_counter_free\<close> looks
  at the second node only and the function ends without a \<open>return\<close>; the node for the
  handle stays linked. The registry here is built by \<open>pointer_counter_add\<close> itself.
\<close>

theorem registry_third_add_free:
  "(case pointer_counter_add (Some 1) (Some 11) True Map.empty None (Some 100) of
      (r1, h1, head1) \<Rightarrow>
    case pointer_counter_add (Some 2) (Some 12) True h1 head1 (Some 200) of
      (r2, h2, head2) \<Rightarrow>
    case pointer_counter_add (Some 3) (Some 13) True h2 head2 (Some 300) of
      (r3, h3, head3) \<Rightarrow>
    case pointer_counter_free h3 head3 (Some 300) of
      (r4, h4, head4) \<Rightarrow>
        r1 = Return 0 \<and> r2 = Return 0 \<and> r3 = Return 0
        \<and> r4 = No_value \<and> head4 = Some 1
        \<and> h4 1 = Some \<lparr>str_ptr = Some 100, nxt = Some 2, counter = 1\<rparr>
        \<and> h4 2 = Some \<lparr>str_ptr = Some 200, nxt = Some 3, counter = 1\<rparr>
        \<and> h4 3 = Some \<lparr>str_ptr = Some 300, nxt = None, counter = 1\<rparr>)"
  by (simp add: pointer_counter_add_def pointer_counter_create_def pointer_counter_free_def
        last_node.simps)

text \<open>
  When the handle is the only one, \<open>pointer_counter_free\<close> frees the head node and
  returns 0, but does not reset \<open>*head\<close>: it still holds the address of the freed
  node. With one other handle in front, the pair works as the claim says.
\<close>

lemma registry_head_add_free:
  "(case pointer_counter_add (Some 1) (Some 11) True Map.empty None (Some 100) of
      (r1, h1, head1) \<Rightarrow>
    case pointer_counter_free h1 head1 (Some 100) of
      (r2, h2, head2) \<Rightarrow>
        r1 = Return 0 \<and> head1 = Some 1 \<and> r2 = Return 0 \<and> head2 = Some 1 \<and> h2 1 = None)"
  by (simp add: pointer_counter_add_def pointer_counter_create_def pointer_counter_free_def)

lemma registry_second_add_free:
  "(case pointer_counter_add (Some 1) (Some 11) True Map.empty None (Some 100) of
      (r1, h1, head1) \<Rightarrow>
    case pointer_counter_add (Some 2) (Some 12) True h1 head1 (Some 200) of
      (r2, h2, head2) \<Rightarrow>
    case pointer_counter_free h2 head2 (Some 200) of
      (r3, h3, head3) \<Rightarrow>
        r1 = Return 0 \<and> r2 = Return 0 \<and> r3 = Return 0 \<and> head3 = Some 1
        \<and> h3 1 = Some \<lparr>str_ptr = Some 100, nxt = None, counter = 1\<rparr>
        \<and> h3 2 = None)"
  by (simp add: pointer_counter_add_def pointer_counter_create_def pointer_counter_free_def
        last_node.simps)




text \<open>
  C6. From a fresh handle, \<open>str_add\<close> of \<open>a\<close> and then of \<open>b\<close>, both
  returning 0, leave the content \<open>a @ b\<close>, and \<open>str_get_size\<close> is then
  \<open>length a + length b\<close>.
\<close>

theorem append_append:
  assumes "str_add alloc (str_init alloc) (Some a) = (0, s1)"
    and "str_add alloc s1 (Some b) = (0, s2)"
  shows "str_get_data s2 = Some (Some (a @ b)) \<and> str_get_size s2 = length a + length b"
  using assms
  by (auto simp: str_add_def str_init_def str_get_data_def str_get_size_def Let_def EINVAL_def
        ENOMEM_def split: if_splits option.splits)

theorem append_append_witness:
  "str_add (\<lambda>n. True) (str_init (\<lambda>n. True)) (Some [104, 105])
     = (0, Some \<lparr>data = Some \<lparr>cap = 3, str = [104, 105]\<rparr>, is_dynamic = 1\<rparr>)
   \<and> str_add (\<lambda>n. True) (Some \<lparr>data = Some \<lparr>cap = 3, str = [104, 105]\<rparr>, is_dynamic = 1\<rparr>) (Some [33])
     = (0, Some \<lparr>data = Some \<lparr>cap = 4, str = [104, 105, 33]\<rparr>, is_dynamic = 1\<rparr>)
   \<and> str_get_data (Some \<lparr>data = Some \<lparr>cap = 4, str = [104, 105, 33]\<rparr>, is_dynamic = 1\<rparr>)
     = Some (Some ([104, 105] @ [33]))
   \<and> str_get_size (Some \<lparr>data = Some \<lparr>cap = 4, str = [104, 105, 33]\<rparr>, is_dynamic = 1\<rparr>)
     = length [104, 105 :: byte] + length [33 :: byte]"
proof -
  have 1: "str_add (\<lambda>n. True) (str_init (\<lambda>n. True)) (Some [104, 105])
     = (0, Some \<lparr>data = Some \<lparr>cap = 3, str = [104, 105]\<rparr>, is_dynamic = 1\<rparr>)"
    by (simp add: str_add_def str_init_def)
  have 2: "str_add (\<lambda>n. True) (Some \<lparr>data = Some \<lparr>cap = 3, str = [104, 105]\<rparr>, is_dynamic = 1\<rparr>) (Some [33])
     = (0, Some \<lparr>data = Some \<lparr>cap = 4, str = [104, 105, 33]\<rparr>, is_dynamic = 1\<rparr>)"
    by (simp add: str_add_def)
  from append_append [OF 1 2] 1 2 show ?thesis by simp
qed

text \<open>
  C7. On a handle whose content is absent (nothing was ever appended to it), every
  operation that works on content (\<open>str_pop_back\<close>, \<open>str_rem_word\<close>,
  \<open>str_swap_word\<close>, \<open>str_to_upper\<close>, \<open>str_to_lower\<close>, \<open>str_to_title_case\<close>,
  \<open>str_reverse\<close>) returns the failure status -1 and leaves the handle as it was; in
  particular \<open>str_reverse\<close> on a fresh handle fails. The other three operations,
  \<open>str_add\<close>, \<open>str_input\<close> and \<open>str_add_input\<close>, are the ones that give a handle
  its content.
\<close>

theorem absent_content_fails:
  assumes "data s = None" and "\<not> populates op"
  shows "call_op alloc inp (Some s) op = Some (- 1, Some s)"
  using assms
  by (cases op)
     (simp_all add: str_pop_back_def str_rem_word_def str_swap_word_def str_to_upper_def
        str_to_lower_def str_to_title_case_def str_reverse_def)

theorem absent_content_fails_witness:
  "data \<lparr>data = None, is_dynamic = 1\<rparr> = None \<and> \<not> populates Op_reverse
   \<and> call_op (\<lambda>n. True) [] (Some \<lparr>data = None, is_dynamic = 1\<rparr>) Op_reverse
       = Some (- 1, Some \<lparr>data = None, is_dynamic = 1\<rparr>)"
  using absent_content_fails [of "\<lparr>data = None, is_dynamic = 1\<rparr>" Op_reverse "\<lambda>n. True" "[]"]
  by simp

text \<open>
  \<open>str_add\<close> on a fresh handle stores the text, and \<open>str_clear\<close>, which returns no
  status, leaves a handle without content as it is.
\<close>

lemma absent_content_add_succeeds:
  "call_op (\<lambda>n. True) [] (Some \<lparr>data = None, is_dynamic = 1\<rparr>) (Op_add (Some [97]))
     = Some (0, Some \<lparr>data = Some \<lparr>cap = 2, str = [97]\<rparr>, is_dynamic = 1\<rparr>)"
  by (simp add: str_add_def)

lemma str_clear_absent: "data s = None \<Longrightarrow> str_clear (Some s) = Some s"
  by (simp add: str_clear_def)

text \<open>
  C8. When the content of a handle contains \<open>w1\<close>, with \<open>p\<close> the text before its
  first occurrence and \<open>q\<close> the text after it, \<open>str_swap_word\<close> on a heap-owned
  handle (\<open>is_dynamic\<close> set) returns 0 and leaves \<open>p @ w2 @ q\<close>, in a block of exactly
  that size; later occurrences of \<open>w1\<close> in \<open>q\<close> stay. The only other outcome there is
  -1, with the handle as it was, when \<open>malloc\<close> refuses the new block. On a handle
  that is not heap-owned the call returns -1 and changes nothing.
\<close>

theorem swap_word_first_occurrence:
  assumes "data s = Some b"
    and "str b = p @ w1 @ q"
    and "\<forall>p' q'. str b = p' @ w1 @ q' \<longrightarrow> length p \<le> length p'"
  shows "(is_dynamic s \<noteq> 0 \<longrightarrow>
           str_swap_word alloc (Some s) (Some w1) (Some w2)
             = (if alloc (length (p @ w2 @ q) + 1)
                then (0, Some (s\<lparr>data := Some \<lparr>cap = length (p @ w2 @ q) + 1, str = p @ w2 @ q\<rparr>\<rparr>))
                else (- 1, Some s)))
       \<and> (is_dynamic s = 0 \<longrightarrow>
           str_swap_word alloc (Some s) (Some w1) (Some w2) = (- 1, Some s))"
proof -
  have L: "strstr (str b) w1 = Some (length p)"
    using assms(2,3) by (rule strstr_first)
  show ?thesis
    using assms(1,2) L by (simp add: str_swap_word_def Let_def add_ac)
qed

theorem swap_word_first_occurrence_witness:
  "str_swap_word (\<lambda>n. True)
      (Some \<lparr>data = Some \<lparr>cap = 8, str = [97, 32, 119, 32, 98, 32, 119]\<rparr>, is_dynamic = 1\<rparr>)
      (Some [119]) (Some [122, 122])
     = (0, Some \<lparr>data = Some \<lparr>cap = 9, str = [97, 32, 122, 122, 32, 98, 32, 119]\<rparr>, is_dynamic = 1\<rparr>)
   \<and> str_swap_word (\<lambda>n. True)
      (Some \<lparr>data = Some \<lparr>cap = 8, str = [97, 32, 119, 32, 98, 32, 119]\<rparr>, is_dynamic = 0\<rparr>)
      (Some [119]) (Some [122, 122])
     = (- 1, Some \<lparr>data = Some \<lparr>cap = 8, str = [97, 32, 119, 32, 98, 32, 119]\<rparr>, is_dynamic = 0\<rparr>)"
proof -
  let ?b = "\<lparr>cap = 8, str = [97, 32, 119, 32, 98, 32, 119 :: byte]\<rparr>"
  have dec: "str ?b = [97, 32] @ [119] @ [32, 98, 32, 119]" by simp
  have first: "\<forall>p' q'. str ?b = p' @ [119] @ q' \<longrightarrow> length [97, 32 :: byte] \<le> length p'"
  proof (intro allI impI)
    fix p' q' :: "byte list"
    assume a: "str ?b = p' @ [119] @ q'"
    show "length [97, 32 :: byte] \<le> length p'"
    proof (rule ccontr)
      assume "\<not> length [97, 32 :: byte] \<le> length p'"
      then have "length p' = 0 \<or> length p' = 1" by (simp add: not_le less_Suc_eq)
      then show False
      proof
        assume "length p' = 0"
        with a show False by simp
      next
        assume "length p' = 1"
        then obtain x where "p' = [x]" by (cases p') auto
        with a show False by simp
      qed
    qed
  qed
  from swap_word_first_occurrence [of "\<lparr>data = Some ?b, is_dynamic = 1\<rparr>" ?b "[97, 32]" "[119]"
        "[32, 98, 32, 119]" "\<lambda>n. True" "[122, 122]", OF _ dec first]
     swap_word_first_occurrence [of "\<lparr>data = Some ?b, is_dynamic = 0\<rparr>" ?b "[97, 32]" "[119]"
        "[32, 98, 32, 119]" "\<lambda>n. True" "[122, 122]", OF _ dec first]
  show ?thesis by simp
qed

text \<open>
  C9. On non-empty content \<open>str_reverse\<close> returns 0; the byte at offset \<open>i\<close> moves to
  offset \<open>length - 1 - i\<close>; the length, and with it the place of the terminator, and the
  block size stay; and reversing the result gives the original handle back.
\<close>

theorem reverse_involution:
  assumes "data s = Some b" and "str b \<noteq> []"
  shows "\<exists>b'. str_reverse (Some s) = (0, Some (s\<lparr>data := Some b'\<rparr>))
           \<and> cap b' = cap b
           \<and> length (str b') = length (str b)
           \<and> (\<forall>i < length (str b). str b' ! (length (str b) - 1 - i) = str b ! i)
           \<and> str_reverse (Some (s\<lparr>data := Some b'\<rparr>)) = (0, Some s)"
proof (intro exI conjI)
  let ?b' = "b\<lparr>str := rev (str b)\<rparr>"
  have "swap_loop (str b) 0 (length (str b) - 1) = rev (str b)"
    using assms(2) by (rule swap_loop_rev)
  then show "str_reverse (Some s) = (0, Some (s\<lparr>data := Some ?b'\<rparr>))"
    using assms by (simp add: str_reverse_def)
  show "cap ?b' = cap b" by simp
  show "length (str ?b') = length (str b)" by simp
  show "\<forall>i < length (str b). str ?b' ! (length (str b) - 1 - i) = str b ! i"
    by (simp add: rev_nth)
  have "swap_loop (rev (str b)) 0 (length (rev (str b)) - 1) = rev (rev (str b))"
    using assms(2) by (intro swap_loop_rev) simp
  then show "str_reverse (Some (s\<lparr>data := Some ?b'\<rparr>)) = (0, Some s)"
    using assms by (simp add: str_reverse_def)
qed

theorem reverse_involution_witness:
  "str_reverse (Some \<lparr>data = Some \<lparr>cap = 4, str = [97, 98, 99]\<rparr>, is_dynamic = 1\<rparr>)
     = (0, Some \<lparr>data = Some \<lparr>cap = 4, str = [99, 98, 97]\<rparr>, is_dynamic = 1\<rparr>)
   \<and> str_reverse (Some \<lparr>data = Some \<lparr>cap = 4, str = [99, 98, 97]\<rparr>, is_dynamic = 1\<rparr>)
     = (0, Some \<lparr>data = Some \<lparr>cap = 4, str = [97, 98, 99]\<rparr>, is_dynamic = 1\<rparr>)"
proof -
  let ?s = "\<lparr>data = Some \<lparr>cap = 4, str = [97, 98, 99 :: byte]\<rparr>, is_dynamic = 1\<rparr>"
  from reverse_involution [of ?s "\<lparr>cap = 4, str = [97, 98, 99]\<rparr>"]
  obtain b' where b': "str_reverse (Some ?s) = (0, Some (?s\<lparr>data := Some b'\<rparr>))"
    "str_reverse (Some (?s\<lparr>data := Some b'\<rparr>)) = (0, Some ?s)"
    by auto
  have "str_reverse (Some ?s)
     = (0, Some \<lparr>data = Some \<lparr>cap = 4, str = [99, 98, 97]\<rparr>, is_dynamic = 1\<rparr>)"
    by (simp add: str_reverse_def swap_loop.simps)
  with b' show ?thesis by simp
qed

text \<open>
  C10. On a handle with content, \<open>str_rem_word\<close> with an empty needle finds the
  needle at offset 0 and removes nothing. It returns 0, not the status of a bad
  argument or of a needle that was not found; the only other outcome is -1 when the
  closing \<open>realloc\<close> (to the size the block should already have) is refused.
  Content and length are unchanged either way.
\<close>

theorem rem_word_empty_needle:
  assumes "data s = Some b"
  shows "str_rem_word alloc (Some s) (Some [])
           = (if alloc (length (str b) + 1)
              then (0, Some (s\<lparr>data := Some \<lparr>cap = length (str b) + 1, str = str b\<rparr>\<rparr>))
              else (- 1, Some s))
         \<and> str_get_data (snd (str_rem_word alloc (Some s) (Some []))) = str_get_data (Some s)
         \<and> str_get_size (snd (str_rem_word alloc (Some s) (Some []))) = str_get_size (Some s)"
proof -
  have same: "s\<lparr>data := Some (b\<lparr>str := str b\<rparr>)\<rparr> = s"
    using assms by (cases s) simp
  show ?thesis
    using assms same
    by (simp add: str_rem_word_def strstr_empty str_get_data_def str_get_size_def Let_def)
qed

theorem rem_word_empty_needle_witness:
  "str_rem_word (\<lambda>n. True) (Some \<lparr>data = Some \<lparr>cap = 3, str = [97, 98]\<rparr>, is_dynamic = 1\<rparr>) (Some [])
     = (0, Some \<lparr>data = Some \<lparr>cap = 3, str = [97, 98]\<rparr>, is_dynamic = 1\<rparr>)"
  using rem_word_empty_needle [of "\<lparr>data = Some \<lparr>cap = 3, str = [97, 98]\<rparr>, is_dynamic = 1\<rparr>"
      "\<lparr>cap = 3, str = [97, 98]\<rparr>" "\<lambda>n. True"]
  by simp


section \<open>Further properties of the code\<close>

text \<open>
  On a handle with content, \<open>str_to_upper\<close> followed by \<open>str_to_lower\<close> leaves
  every byte from \<open>A\<close> to \<open>Z\<close> of the original replaced by its lower-case letter and
  every other byte as it was, so no upper-case letter is left; and a second
  \<open>str_to_upper\<close> changes nothing.
\<close>

theorem upper_lower_case:
  assumes "data s = Some b"
  shows "\<exists>u l. str_to_upper (Some s) = (0, Some (s\<lparr>data := Some (b\<lparr>str := u\<rparr>)\<rparr>))
      \<and> str_to_upper (Some (s\<lparr>data := Some (b\<lparr>str := u\<rparr>)\<rparr>))
           = (0, Some (s\<lparr>data := Some (b\<lparr>str := u\<rparr>)\<rparr>))
      \<and> str_to_lower (Some (s\<lparr>data := Some (b\<lparr>str := u\<rparr>)\<rparr>))
           = (0, Some (s\<lparr>data := Some (b\<lparr>str := l\<rparr>)\<rparr>))
      \<and> l = map (\<lambda>c. if 65 \<le> c \<and> c \<le> 90 then c + 32 else c) (str b)
      \<and> (\<forall>c \<in> set l. \<not> (65 \<le> c \<and> c \<le> 90))"
proof (intro exI conjI)
  show "str_to_upper (Some s) = (0, Some (s\<lparr>data := Some (b\<lparr>str := upper_loop (str b)\<rparr>)\<rparr>))"
    using assms by (simp add: str_to_upper_def)
  show "str_to_upper (Some (s\<lparr>data := Some (b\<lparr>str := upper_loop (str b)\<rparr>)\<rparr>))
           = (0, Some (s\<lparr>data := Some (b\<lparr>str := upper_loop (str b)\<rparr>)\<rparr>))"
    by (simp add: str_to_upper_def upper_loop_idem)
  show "str_to_lower (Some (s\<lparr>data := Some (b\<lparr>str := upper_loop (str b)\<rparr>)\<rparr>))
           = (0, Some (s\<lparr>data := Some (b\<lparr>str := lower_loop (str b)\<rparr>)\<rparr>))"
    by (simp add: str_to_lower_def lower_upper_loop)
  show "lower_loop (str b) = map (\<lambda>c. if 65 \<le> c \<and> c \<le> 90 then c + 32 else c) (str b)"
    by (rule lower_loop_map)
  show "\<forall>c \<in> set (lower_loop (str b)). \<not> (65 \<le> c \<and> c \<le> 90)"
    using lower_loop_no_upper by blast
qed

theorem upper_lower_case_witness:
  "str_to_upper (Some \<lparr>data = Some \<lparr>cap = 5, str = [72, 105, 33, 122]\<rparr>, is_dynamic = 1\<rparr>)
     = (0, Some \<lparr>data = Some \<lparr>cap = 5, str = [72, 73, 33, 90]\<rparr>, is_dynamic = 1\<rparr>)
   \<and> str_to_lower (Some \<lparr>data = Some \<lparr>cap = 5, str = [72, 73, 33, 90]\<rparr>, is_dynamic = 1\<rparr>)
     = (0, Some \<lparr>data = Some \<lparr>cap = 5, str = [104, 105, 33, 122]\<rparr>, is_dynamic = 1\<rparr>)"
proof -
  let ?b = "\<lparr>cap = 5, str = [72, 105, 33, 122 :: byte]\<rparr>"
  let ?s = "\<lparr>data = Some ?b, is_dynamic = 1\<rparr>"
  from upper_lower_case [of ?s ?b]
  obtain u where "str_to_upper (Some ?s) = (0, Some (?s\<lparr>data := Some (?b\<lparr>str := u\<rparr>)\<rparr>))"
    by auto
  have 1: "str_to_upper (Some ?s)
     = (0, Some \<lparr>data = Some \<lparr>cap = 5, str = [72, 73, 33, 90]\<rparr>, is_dynamic = 1\<rparr>)"
    by (simp add: str_to_upper_def)
  have 2: "str_to_lower (Some \<lparr>data = Some \<lparr>cap = 5, str = [72, 73, 33, 90]\<rparr>, is_dynamic = 1\<rparr>)
     = (0, Some \<lparr>data = Some \<lparr>cap = 5, str = [104, 105, 33, 122]\<rparr>, is_dynamic = 1\<rparr>)"
    by (simp add: str_to_lower_def)
  from 1 2 show ?thesis by simp
qed

text \<open>
  \<open>str_pop_back\<close> with the separator \<open>/\<close> on \<open>/usr/local/bin\<close> leaves
  \<open>/usr/local/\<close>.
\<close>

theorem pop_back_usr_local_bin:
  "str_pop_back (\<lambda>n. True)
     (Some \<lparr>data = Some \<lparr>cap = 15,
         str = [47, 117, 115, 114, 47, 108, 111, 99, 97, 108, 47, 98, 105, 110]\<rparr>,
       is_dynamic = 1\<rparr>) 47
   = Some (0, Some \<lparr>data = Some \<lparr>cap = 12,
         str = [47, 117, 115, 114, 47, 108, 111, 99, 97, 108, 47]\<rparr>, is_dynamic = 1\<rparr>)"
  by (simp add: str_pop_back_def strrchr_def)

text \<open>
  The scenario of the specification: a fresh handle, \<open>str_add\<close> of \<open>hello\<close>
  (length 5), \<open>str_to_title_case\<close> gives \<open>Hello\<close>, \<open>str_reverse\<close> gives \<open>olleH\<close>.
\<close>

theorem hello_scenario:
  "(case str_add (\<lambda>n. True) (str_init (\<lambda>n. True)) (Some [104, 101, 108, 108, 111]) of
      (r1, s1) \<Rightarrow>
    case str_to_title_case s1 of
      (r2, s2) \<Rightarrow>
    case str_reverse s2 of
      (r3, s3) \<Rightarrow>
        r1 = 0 \<and> str_get_size s1 = 5
        \<and> r2 = 0 \<and> str_get_data s2 = Some (Some [72, 101, 108, 108, 111])
        \<and> r3 = 0 \<and> str_get_data s3 = Some (Some [111, 108, 108, 101, 72]))"
  by (simp add: str_add_def str_init_def str_to_title_case_def str_reverse_def str_get_size_def
        str_get_data_def swap_loop.simps)

text \<open>
  When the content contains the needle, \<open>str_rem_word\<close> cuts out its first
  occurrence and nothing else, and the length goes down by the length of the needle
  (given that the closing \<open>realloc\<close> is granted).
\<close>

theorem rem_word_first_occurrence:
  assumes "data s = Some b"
    and "str b = p @ n @ q"
    and "\<forall>p' q'. str b = p' @ n @ q' \<longrightarrow> length p \<le> length p'"
    and "alloc (length (p @ q) + 1)"
  shows "str_rem_word alloc (Some s) (Some n)
           = (0, Some (s\<lparr>data := Some \<lparr>cap = length (p @ q) + 1, str = p @ q\<rparr>\<rparr>))
       \<and> str_get_size (snd (str_rem_word alloc (Some s) (Some n))) + length n
           = str_get_size (Some s)"
proof -
  have L: "strstr (str b) n = Some (length p)"
    using assms(2,3) by (rule strstr_first)
  show ?thesis
    using assms(1,2,4) L by (simp add: str_rem_word_def Let_def str_get_size_def)
qed

theorem rem_word_first_occurrence_witness:
  "str_rem_word (\<lambda>n. True)
      (Some \<lparr>data = Some \<lparr>cap = 6, str = [97, 119, 98, 119, 99]\<rparr>, is_dynamic = 1\<rparr>)
      (Some [119])
     = (0, Some \<lparr>data = Some \<lparr>cap = 5, str = [97, 98, 119, 99]\<rparr>, is_dynamic = 1\<rparr>)"
proof -
  let ?b = "\<lparr>cap = 6, str = [97, 119, 98, 119, 99 :: byte]\<rparr>"
  have dec: "str ?b = [97] @ [119] @ [98, 119, 99]" by simp
  have first: "\<forall>p' q'. str ?b = p' @ [119] @ q' \<longrightarrow> length [97 :: byte] \<le> length p'"
  proof (intro allI impI)
    fix p' q' :: "byte list"
    assume a: "str ?b = p' @ [119] @ q'"
    show "length [97 :: byte] \<le> length p'"
    proof (cases p')
      case Nil
      with a show ?thesis by simp
    next
      case (Cons x xs)
      then show ?thesis by simp
    qed
  qed
  from rem_word_first_occurrence [of "\<lparr>data = Some ?b, is_dynamic = 1\<rparr>" ?b "[97]" "[119]"
        "[98, 119, 99]" "\<lambda>n. True", OF _ dec first]
  show ?thesis by simp
qed

text \<open>
  Every call that returns 0 on a handle whose block is exactly sized leaves a
  handle whose block is exactly sized, as long as the line read from the stream holds
  no zero byte.
\<close>

theorem success_exact_size:
  assumes "call_op alloc inp self op = Some (0, self')"
    and "exact_size self"
    and "0 \<notin> set (line_of inp)"
  shows "exact_size self'"
proof (cases op)
  case (Op_add d)
  with assms show ?thesis
    by (auto simp: exact_size_def str_add_def Let_def split: option.splits if_splits)
next
  case Op_input
  with assms show ?thesis
    by (auto simp: exact_size_def str_input_def dest: get_dyn_input_exact
          split: option.splits if_splits prod.splits)
next
  case Op_add_input
  with assms show ?thesis
    by (auto simp: exact_size_def str_add_input_def Let_def dest: get_dyn_input_exact
          split: option.splits if_splits prod.splits)
next
  case (Op_pop_back sep)
  with assms show ?thesis
    by (auto simp: exact_size_def str_pop_back_def Let_def split: option.splits if_splits)
next
  case (Op_rem_word needle)
  with assms show ?thesis
    by (auto simp: exact_size_def str_rem_word_def Let_def dest!: strstr_SomeD
          split: option.splits if_splits)
next
  case (Op_swap_word w1 w2)
  with assms show ?thesis
    by (auto simp: exact_size_def str_swap_word_def Let_def dest!: strstr_SomeD
          split: option.splits if_splits)
next
  case Op_to_upper
  with assms show ?thesis
    by (auto simp: exact_size_def str_to_upper_def split: option.splits)
next
  case Op_to_lower
  with assms show ?thesis
    by (auto simp: exact_size_def str_to_lower_def split: option.splits)
next
  case Op_to_title_case
  with assms show ?thesis
    by (auto simp: exact_size_def str_to_title_case_def split: option.splits if_splits)
next
  case Op_reverse
  with assms show ?thesis
    by (auto simp: exact_size_def str_reverse_def swap_loop_length split: option.splits if_splits)
qed

theorem success_exact_size_witness:
  "call_op (\<lambda>n. True) [104, 105, 10] (Some \<lparr>data = None, is_dynamic = 1\<rparr>) Op_input
     = Some (0, Some \<lparr>data = Some \<lparr>cap = 3, str = [104, 105]\<rparr>, is_dynamic = 1\<rparr>)
   \<and> exact_size (Some \<lparr>data = None, is_dynamic = 1\<rparr>)
   \<and> 0 \<notin> set (line_of [104, 105, 10])
   \<and> exact_size (Some \<lparr>data = Some \<lparr>cap = 3, str = [104, 105]\<rparr>, is_dynamic = 1\<rparr>)"
proof -
  have c: "call_op (\<lambda>n. True) [104, 105, 10] (Some \<lparr>data = None, is_dynamic = 1\<rparr>) Op_input
     = Some (0, Some \<lparr>data = Some \<lparr>cap = 3, str = [104, 105]\<rparr>, is_dynamic = 1\<rparr>)"
    by (simp add: str_input_def get_dyn_input_def CHUNK_SIZE_def MAX_STRING_SIZE_def)
  have e: "exact_size (Some \<lparr>data = None, is_dynamic = 1\<rparr>)"
    by (simp add: exact_size_def)
  have z: "0 \<notin> set (line_of [104, 105, 10])"
    by (simp add: line_of_def)
  from success_exact_size [OF c e z] c e z show ?thesis by simp
qed

text \<open>A line with a zero byte: the stored string is cut at it, the block is not.\<close>

lemma input_with_zero_byte:
  "call_op (\<lambda>n. True) [104, 0, 105, 10] (Some \<lparr>data = None, is_dynamic = 1\<rparr>) Op_input
     = Some (0, Some \<lparr>data = Some \<lparr>cap = 4, str = [104]\<rparr>, is_dynamic = 1\<rparr>)"
  by (simp add: str_input_def get_dyn_input_def CHUNK_SIZE_def MAX_STRING_SIZE_def)

end
